theory Spec2Isabelle
  imports Complex_Main
begin

section \<open>Errors\<close>

text \<open>
  The parser of the dependency golang-jwt/jwt (go.mod: v5.2.2) reports a failure by the stage
  that failed. The stages are kept apart as constructors; the operands are the messages or
  names the stage carries.
\<close>

type_synonym key_error = string

datatype jwt_error =
    ParseUnverifiedError string
  | SigningMethodInvalid string
  | SignatureUndecodable
  | KeyfuncError key_error
  | SignatureInvalid
  | ClaimsInvalid string

text \<open>
  The second operand of an \<open>fmt.Errorf\<close> call of \<open>validateToken\<close>: the parser's error
  (\<open>%v\<close>), the issuer (\<open>%s\<close>) or the audience list (\<open>%v\<close>).
\<close>

datatype operand =
    VError jwt_error
  | VString string
  | VStrings "string list"

text \<open>
  The six package-level error values, and \<open>fmt.Errorf format e a\<close> with \<open>e\<close> under
  the verb \<open>%w\<close> and \<open>a\<close> under the second verb.
\<close>

datatype error =
    ErrMissingAuthHeader
  | ErrInvalidAuthHeaderFormat
  | ErrTokenParsingFailed
  | ErrTokenInvalid
  | ErrInvalidIssuer
  | ErrInvalidAudience
  | Errorf string error operand

text \<open>\<open>errors.Is\<close> on these values: the value itself, or the one it wraps.\<close>

fun errors_Is :: "error \<Rightarrow> error \<Rightarrow> bool" where
  "errors_Is (Errorf f e a) target = (Errorf f e a = target \<or> errors_Is e target)"
| "errors_Is e target = (e = target)"

section \<open>Claims\<close>

text \<open>
  A decoded JSON value, as \<open>encoding/json\<close> stores it in an \<open>interface{}\<close>. The code below
  only asks whether a value is a string or a list, never for the value of a number.
\<close>

datatype json =
    JNull
  | JBool bool
  | JNumber real
  | JString string
  | JArray "json list"
  | JObject "(string \<times> json) list"

type_synonym MapClaims = "string \<rightharpoonup> json"

type_synonym ClaimStrings = "string list"

text \<open>
  The accessors of \<open>jwt.MapClaims\<close>. Each returns a value and an error; the flag is True
  when the error is not nil. \<open>parseString\<close>: an absent key is the empty string without an
  error, a value that is not a string is the empty string with one.
\<close>

definition parseString :: "MapClaims \<Rightarrow> string \<Rightarrow> string \<times> bool" where
  "parseString m key =
     (case m key of
        None \<Rightarrow> ([], False)
      | Some (JString iss) \<Rightarrow> (iss, False)
      | Some _ \<Rightarrow> ([], True))"

text \<open>
  The loop of \<open>parseClaimsString\<close> over a list value: the first element that is not a
  string ends it with nil and an error.
\<close>

fun parseClaimsString_loop :: "json list \<Rightarrow> string list \<Rightarrow> string list option" where
  "parseClaimsString_loop [] cs = Some cs"
| "parseClaimsString_loop (JString vs # v) cs = parseClaimsString_loop v (cs @ [vs])"
| "parseClaimsString_loop (a # v) cs = None"

definition parseClaimsString :: "MapClaims \<Rightarrow> string \<Rightarrow> ClaimStrings \<times> bool" where
  "parseClaimsString m key =
     (case m key of
        Some (JString v) \<Rightarrow> ([v], False)
      | Some (JArray v) \<Rightarrow>
          (case parseClaimsString_loop v [] of
             None \<Rightarrow> ([], True)
           | Some cs \<Rightarrow> (cs, False))
      | _ \<Rightarrow> ([], False))"

definition GetIssuer :: "MapClaims \<Rightarrow> string \<times> bool" where
  "GetIssuer m = parseString m ''iss''"

definition GetSubject :: "MapClaims \<Rightarrow> string \<times> bool" where
  "GetSubject m = parseString m ''sub''"

definition GetAudience :: "MapClaims \<Rightarrow> ClaimStrings \<times> bool" where
  "GetAudience m = parseClaimsString m ''aud''"

record UserClaims =
  Subject :: string
  Name :: string
  PreferredUser :: string
  TenantID :: string
  Audience :: ClaimStrings
  Issuer :: string
  Scopes :: string
  Roles :: "string list"
  RawClaims :: MapClaims

section \<open>Tokens, key sets and the validator\<close>

text \<open>
  The token of the dependency; \<open>Method\<close> is the name of the signing algorithm its header
  declares, \<open>JOSEHeader\<close> its \<open>Header\<close> field.
\<close>

record Token =
  Raw :: string
  Method :: string
  JOSEHeader :: "string \<rightharpoonup> json"
  Claims :: MapClaims
  Signature :: string
  Valid :: bool

text \<open>
  A key set (\<open>keyfunc.Keyfunc\<close>) resolves a token to a verification key or fails. The calls
  to the two key sets and to the signature check of the signing method are recorded, in
  their order, as a list.
\<close>

datatype call = KeyfuncV2 | KeyfuncV1 | MethodVerify

type_synonym 'k Keyfunc = "Token \<Rightarrow> key_error + 'k"

datatype Logger = Logger nat

record 'k Validator =
  jwksV1 :: "'k Keyfunc"
  jwksV2 :: "'k Keyfunc"
  validIssuers :: "string list"
  validAudiences :: "string list"
  isAudienceCheckEnabled :: bool
  logger :: "Logger option"

text \<open>
  The three options of the package. The logger handed to \<open>WithLogger\<close> is a pointer and
  may be nil.
\<close>

datatype Option =
    WithAudiences "string list"
  | WithoutAudienceValidation
  | WithLogger "Logger option"

text \<open>What the closure returned by each option does to the validator it is given.\<close>

fun applyOption :: "Option \<Rightarrow> 'k Validator \<Rightarrow> 'k Validator" where
  "applyOption (WithAudiences audiences) v = v\<lparr>validAudiences := audiences\<rparr>"
| "applyOption WithoutAudienceValidation v = v\<lparr>isAudienceCheckEnabled := False\<rparr>"
| "applyOption (WithLogger l) v = v\<lparr>logger := l\<rparr>"

fun applyOptions :: "Option list \<Rightarrow> 'k Validator \<Rightarrow> 'k Validator" where
  "applyOptions [] validator = validator"
| "applyOptions (opt # opts) validator = applyOptions opts (applyOption opt validator)"

section \<open>Construction\<close>

text \<open>
  \<open>keyfunc.NewDefaultCtx\<close> and \<open>zap.NewProduction\<close> belong to dependencies: each is a
  parameter that yields its object or an error. The context argument only bounds the
  lifetime of the background refresh and is left out.
\<close>

record 'k environment =
  NewDefaultCtx :: "string list \<Rightarrow> string + 'k Keyfunc"
  NewProduction :: "string + Logger"

datatype construction_error =
    EmptyTenantID
  | JWKSv1Failed string
  | JWKSv2Failed string
  | DefaultLoggerFailed string
  | NoValidAudiences

definition NewValidator ::
  "'k environment \<Rightarrow> string \<Rightarrow> Option list \<Rightarrow> construction_error + 'k Validator" where
  "NewValidator env tenantID opts =
     (if tenantID = [] then Inl EmptyTenantID
      else
        let jwksV1URL = ''https://login.microsoftonline.com/'' @ tenantID @ ''/discovery/keys'';
            jwksV2URL = ''https://login.microsoftonline.com/'' @ tenantID @ ''/discovery/v2.0/keys''
        in
        (case NewDefaultCtx env [jwksV1URL] of
           Inl err \<Rightarrow> Inl (JWKSv1Failed err)
         | Inr jwks1 \<Rightarrow>
            (case NewDefaultCtx env [jwksV2URL] of
               Inl err \<Rightarrow> Inl (JWKSv2Failed err)
             | Inr jwks2 \<Rightarrow>
                (let validator = applyOptions opts
                       \<lparr>jwksV1 = jwks1,
                        jwksV2 = jwks2,
                        validIssuers =
                          [''https://sts.windows.net/'' @ tenantID @ ''/'',
                           ''https://login.microsoftonline.com/'' @ tenantID @ ''/v2.0''],
                        validAudiences = [],
                        isAudienceCheckEnabled = True,
                        logger = None\<rparr>;
                     withLogger =
                       (case logger validator of
                          Some l \<Rightarrow> Inr validator
                        | None \<Rightarrow>
                            (case NewProduction env of
                               Inl err \<Rightarrow> Inl (DefaultLoggerFailed err)
                             | Inr prodLogger \<Rightarrow> Inr (validator\<lparr>logger := Some prodLogger\<rparr>)))
                 in
                 (case withLogger of
                    Inl err \<Rightarrow> Inl err
                  | Inr validator \<Rightarrow>
                      if isAudienceCheckEnabled validator \<and> length (validAudiences validator) = 0
                      then Inl NoValidAudiences
                      else Inr validator)))))"

section \<open>Bearer token extraction\<close>

record request =
  Header :: "string \<rightharpoonup> string list"
  RemoteAddr :: string

text \<open>\<open>http.Header.Get\<close>: the first value under the key, the empty string when there is none.\<close>

definition Header_Get :: "(string \<rightharpoonup> string list) \<Rightarrow> string \<Rightarrow> string" where
  "Header_Get h key = (case h key of None \<Rightarrow> [] | Some [] \<Rightarrow> [] | Some (v # vs) \<Rightarrow> v)"

text \<open>
  \<open>strings.EqualFold\<close> compares under Unicode simple case folding. The only ASCII letters
  with a fold partner outside ASCII are k and s; the code compares with the literal
  \<open>Bearer \<close>, which has neither, so that the comparison is the bytewise one that folds
  A to Z onto a to z.
\<close>

definition lower :: "char \<Rightarrow> char" where
  "lower c = (let n = (of_char c :: nat) in if 65 \<le> n \<and> n \<le> 90 then char_of (n + 32) else c)"

definition EqualFold :: "string \<Rightarrow> string \<Rightarrow> bool" where
  "EqualFold s t = (map lower s = map lower t)"

definition extractBearerToken :: "request \<Rightarrow> error + string" where
  "extractBearerToken r =
     (let authHeader = Header_Get (Header r) ''Authorization'' in
      if authHeader = [] then Inl ErrMissingAuthHeader
      else if length authHeader > 7 \<and> EqualFold (take 7 authHeader) ''Bearer ''
      then Inr (drop 7 authHeader)
      else Inl ErrInvalidAuthHeaderFormat)"

section \<open>The parser of the dependency\<close>

text \<open>
  \<open>jwt.ParseWithClaims\<close> belongs to the dependency golang-jwt/jwt, which \<open>go.mod\<close> pins at
  v5.2.2; it is not code of this repository. Its stages run in the order written here, and
  it sets the valid flag only when all of them have passed. What each stage computes
  (splitting and decoding the token, decoding the signature, verifying it under a key,
  validating the time claims) is a parameter. \<open>ParseUnverified\<close> yields the token and its
  three segments. The key sets of \<open>keyfunc\<close> resolve to one key, so that the signature is
  checked once.
\<close>

record 'k jwt_lib =
  ParseUnverified :: "string \<Rightarrow> string + Token \<times> string \<times> string \<times> string"
  DecodeSegment :: "string \<Rightarrow> string option"
  Verify :: "string \<Rightarrow> string \<Rightarrow> string \<Rightarrow> 'k \<Rightarrow> bool"
  Validate :: "MapClaims \<Rightarrow> string option"

type_synonym 'k callback = "Token \<Rightarrow> call list \<times> (key_error + 'k)"

type_synonym 'k parser =
  "string \<Rightarrow> 'k callback \<Rightarrow> string list \<Rightarrow> call list \<times> (jwt_error + Token)"

text \<open>\<open>slices.Contains\<close>; the parser's search of the valid methods is the same loop.\<close>

fun Contains :: "string list \<Rightarrow> string \<Rightarrow> bool" where
  "Contains [] v = False"
| "Contains (x # xs) v = (if x = v then True else Contains xs v)"

definition ParseWithClaims :: "'k jwt_lib \<Rightarrow> 'k parser" where
  "ParseWithClaims lib tokenString keyFunc validMethods =
     (case ParseUnverified lib tokenString of
        Inl err \<Rightarrow> ([], Inl (ParseUnverifiedError err))
      | Inr (token, p0, p1, p2) \<Rightarrow>
          if \<not> Contains validMethods (Method token)
          then ([], Inl (SigningMethodInvalid (Method token)))
          else
            (case DecodeSegment lib p2 of
               None \<Rightarrow> ([], Inl SignatureUndecodable)
             | Some sig \<Rightarrow>
                 (case keyFunc (token\<lparr>Signature := sig\<rparr>) of
                    (calls, Inl err) \<Rightarrow> (calls, Inl (KeyfuncError err))
                  | (calls, Inr key) \<Rightarrow>
                      if \<not> Verify lib (Method token) (p0 @ ''.'' @ p1) sig key
                      then (calls @ [MethodVerify], Inl SignatureInvalid)
                      else
                        (case Validate lib (Claims token) of
                           Some err \<Rightarrow> (calls @ [MethodVerify], Inl (ClaimsInvalid err))
                         | None \<Rightarrow>
                             (calls @ [MethodVerify],
                              Inr (token\<lparr>Signature := sig, Valid := True\<rparr>))))))"

section \<open>Validation\<close>

definition keyFunc :: "'k Validator \<Rightarrow> 'k callback" where
  "keyFunc v token =
     (case jwksV2 v token of
        Inr key \<Rightarrow> ([KeyfuncV2], Inr key)
      | Inl err \<Rightarrow> ([KeyfuncV2, KeyfuncV1], jwksV1 v token))"

fun audiencesIntersect :: "string list \<Rightarrow> ClaimStrings \<Rightarrow> bool" where
  "audiencesIntersect valid [] = False"
| "audiencesIntersect valid (tokenAud # tokenAudiences) =
     (if Contains valid tokenAud then True
      else audiencesIntersect valid tokenAudiences)"

text \<open>The loop over the elements of the \<open>roles\<close> claim.\<close>

fun roles_loop :: "json list \<Rightarrow> string list \<Rightarrow> string list" where
  "roles_loop [] roles = roles"
| "roles_loop (JString role # rolesInterfaces) roles = roles_loop rolesInterfaces (roles @ [role])"
| "roles_loop (roleInterface # rolesInterfaces) roles = roles_loop rolesInterfaces roles"

text \<open>The type assertion \<open>mapClaims[key].(string)\<close> in its two-valued form.\<close>

definition string_claim :: "MapClaims \<Rightarrow> string \<Rightarrow> string" where
  "string_claim mapClaims key = (case mapClaims key of Some (JString s) \<Rightarrow> s | _ \<Rightarrow> [])"

definition buildUserClaims :: "'k Validator \<Rightarrow> MapClaims \<Rightarrow> UserClaims" where
  "buildUserClaims v mapClaims =
     (let aud = fst (GetAudience mapClaims);
          iss = fst (GetIssuer mapClaims);
          sub = fst (GetSubject mapClaims);
          roles = (case mapClaims ''roles'' of
                     Some (JArray rolesInterfaces) \<Rightarrow> roles_loop rolesInterfaces []
                   | _ \<Rightarrow> []);
          name = string_claim mapClaims ''name'';
          preferredUser = string_claim mapClaims ''preferred_username'';
          tenantID = string_claim mapClaims ''tid'';
          scopes = string_claim mapClaims ''scp''
      in \<lparr>Subject = sub,
          Name = name,
          PreferredUser = preferredUser,
          TenantID = tenantID,
          Audience = aud,
          Issuer = iss,
          Scopes = scopes,
          Roles = roles,
          RawClaims = mapClaims\<rparr>)"

text \<open>
  \<open>validateToken\<close>, with the parser it calls as its first argument. The claims it reads
  are those of the token the parser returns. The calls the parser made are returned with
  the result.
\<close>

definition validateToken ::
  "'k parser \<Rightarrow> 'k Validator \<Rightarrow> string \<Rightarrow> call list \<times> (error + UserClaims)" where
  "validateToken parse v tokenString =
     (case parse tokenString (keyFunc v) [''RS256''] of
        (calls, Inl err) \<Rightarrow>
          (calls, Inl (Errorf ''%w: %v'' ErrTokenParsingFailed (VError err)))
      | (calls, Inr token) \<Rightarrow>
          (calls,
           if \<not> Valid token then Inl ErrTokenInvalid
           else
             let mapClaims = Claims token;
                 issuer = fst (GetIssuer mapClaims)
             in
             if \<not> Contains (validIssuers v) issuer
             then Inl (Errorf ''%w. Received: %s'' ErrInvalidIssuer (VString issuer))
             else
               let audience = fst (GetAudience mapClaims) in
               if isAudienceCheckEnabled v \<and> \<not> audiencesIntersect (validAudiences v) audience
               then Inl (Errorf ''%w. Received: %v'' ErrInvalidAudience (VStrings audience))
               else Inr (buildUserClaims v mapClaims)))"

section \<open>The middleware\<close>

text \<open>
  What the handler does with a request: it answers with a problem built from an error, a
  status and the request, or it calls the next handler with the claims in the context.
  The entries written to the logger are returned with it.
\<close>

datatype log_entry =
    Warn string error string
  | Info string UserClaims

datatype outcome =
    RespondError error nat request
  | ServeHTTP UserClaims request

definition StatusUnauthorized :: nat where
  "StatusUnauthorized = 401"

definition Middleware ::
  "'k parser \<Rightarrow> 'k Validator \<Rightarrow> request \<Rightarrow> log_entry list \<times> outcome" where
  "Middleware parse v r =
     (case extractBearerToken r of
        Inl err \<Rightarrow> ([], RespondError err StatusUnauthorized r)
      | Inr tokenString \<Rightarrow>
          (case snd (validateToken parse v tokenString) of
             Inl err \<Rightarrow>
               ([Warn ''Token validation failed'' err (RemoteAddr r)],
                RespondError ErrTokenInvalid StatusUnauthorized r)
           | Inr claims \<Rightarrow>
               ([Info ''Token validated'' claims], ServeHTTP claims r)))"

section \<open>A test bench\<close>

text \<open>
  Concrete inputs for the statements below: tenant \<open>contoso\<close> with the accepted audience
  \<open>api://myapp\<close>, two key sets that know one key identifier each, and a parser whose
  decoding is a table of token strings. A signature verifies under a key when it is the
  name of that key.
\<close>

definition claims_alice :: MapClaims where
  "claims_alice =
     [''iss'' \<mapsto> JString ''https://login.microsoftonline.com/contoso/v2.0'',
      ''aud'' \<mapsto> JArray [JString ''api://myapp''],
      ''sub'' \<mapsto> JString ''u1'',
      ''name'' \<mapsto> JString ''Alice'',
      ''roles'' \<mapsto> JArray [JString ''Admin'']]"

definition claims_evil :: MapClaims where
  "claims_evil = claims_alice(''iss'' \<mapsto> JString ''https://evil.example/contoso/v2.0'')"

definition claims_other_aud :: MapClaims where
  "claims_other_aud = claims_alice(''aud'' \<mapsto> JString ''api://other'')"

definition claims_no_iss :: MapClaims where
  "claims_no_iss =
     [''aud'' \<mapsto> JArray [JString ''api://myapp''],
      ''sub'' \<mapsto> JString ''u1'']"

definition claims_mixed_roles :: MapClaims where
  "claims_mixed_roles =
     [''roles'' \<mapsto> JArray [JString ''Admin'', JNumber 42, JString ''Reader''],
      ''name'' \<mapsto> JNumber 7,
      ''scp'' \<mapsto> JString ''user.read'']"

definition bench_token :: "string \<Rightarrow> string \<Rightarrow> string \<Rightarrow> MapClaims \<Rightarrow> Token" where
  "bench_token s alg kid claims =
     \<lparr>Raw = s,
      Method = alg,
      JOSEHeader = [''alg'' \<mapsto> JString alg, ''kid'' \<mapsto> JString kid],
      Claims = claims,
      Signature = [],
      Valid = False\<rparr>"

definition bench_ParseUnverified :: "string \<Rightarrow> string + Token \<times> string \<times> string \<times> string" where
  "bench_ParseUnverified s =
     (if s = ''alice'' then Inr (bench_token s ''RS256'' ''k2'' claims_alice, ''h'', ''c'', ''key2'')
      else if s = ''alice-v1'' then Inr (bench_token s ''RS256'' ''k1'' claims_alice, ''h'', ''c'', ''key1'')
      else if s = ''forged'' then Inr (bench_token s ''RS256'' ''k2'' claims_alice, ''h'', ''c'', ''bogus'')
      else if s = ''hs256'' then Inr (bench_token s ''HS256'' ''k2'' claims_alice, ''h'', ''c'', ''key2'')
      else if s = ''evil'' then Inr (bench_token s ''RS256'' ''k2'' claims_evil, ''h'', ''c'', ''key2'')
      else if s = ''other-aud'' then Inr (bench_token s ''RS256'' ''k2'' claims_other_aud, ''h'', ''c'', ''key2'')
      else if s = ''no-iss'' then Inr (bench_token s ''RS256'' ''k2'' claims_no_iss, ''h'', ''c'', ''key2'')
      else if s = ''unknown-kid'' then Inr (bench_token s ''RS256'' ''k9'' claims_alice, ''h'', ''c'', ''key9'')
      else Inl ''token is malformed'')"

definition bench_keys :: "string \<Rightarrow> string \<Rightarrow> string \<Rightarrow> string Keyfunc" where
  "bench_keys kid key missing token =
     (if JOSEHeader token ''kid'' = Some (JString kid) then Inr key else Inl missing)"

definition bench_jwksV2 :: "string Keyfunc" where
  "bench_jwksV2 = bench_keys ''k2'' ''key2'' ''not in the v2 key set''"

definition bench_jwksV1 :: "string Keyfunc" where
  "bench_jwksV1 = bench_keys ''k1'' ''key1'' ''not in the v1 key set''"

definition bench_lib :: "string jwt_lib" where
  "bench_lib =
     \<lparr>ParseUnverified = bench_ParseUnverified,
      DecodeSegment = Some,
      Verify = (\<lambda>alg text sig key. sig = key),
      Validate = (\<lambda>claims. None)\<rparr>"

definition bench_env :: "string environment" where
  "bench_env =
     \<lparr>NewDefaultCtx =
        (\<lambda>urls.
           if urls = [''https://login.microsoftonline.com/contoso/discovery/keys'']
           then Inr bench_jwksV1
           else if urls = [''https://login.microsoftonline.com/contoso/discovery/v2.0/keys'']
           then Inr bench_jwksV2
           else Inl ''no key set''),
      NewProduction = Inr (Logger 0)\<rparr>"

definition contoso :: "string Validator" where
  "contoso =
     \<lparr>jwksV1 = bench_jwksV1,
      jwksV2 = bench_jwksV2,
      validIssuers =
        [''https://sts.windows.net/contoso/'',
         ''https://login.microsoftonline.com/contoso/v2.0''],
      validAudiences = [''api://myapp''],
      isAudienceCheckEnabled = True,
      logger = Some (Logger 0)\<rparr>"

definition bench_request :: "string \<Rightarrow> request" where
  "bench_request authHeader =
     \<lparr>Header = [''Authorization'' \<mapsto> [authHeader]], RemoteAddr = ''10.0.0.7:4711''\<rparr>"

text \<open>A parser that returns a token without an error and without the valid flag.\<close>

definition unflagged_parser :: "string parser" where
  "unflagged_parser tokenString resolve validMethods =
     ([], Inr (bench_token tokenString ''RS256'' ''k2'' claims_alice))"

section \<open>Loops as list functions\<close>

lemma Contains_iff: "Contains xs v \<longleftrightarrow> v \<in> set xs"
  by (induction xs) auto

lemma audiencesIntersect_iff:
  "audiencesIntersect valid tokenAudiences \<longleftrightarrow> (\<exists>a \<in> set tokenAudiences. a \<in> set valid)"
  by (induction tokenAudiences) (auto simp: Contains_iff)

lemma roles_loop_append:
  "roles_loop rolesInterfaces acc = acc @ [role. JString role \<leftarrow> rolesInterfaces]"
proof (induction rolesInterfaces arbitrary: acc)
  case Nil
  show ?case by simp
next
  case (Cons x xs)
  show ?case by (cases x) (simp_all add: Cons.IH)
qed

lemma parseClaimsString_loop_Some:
  "parseClaimsString_loop (map JString ss) cs = Some (cs @ ss)"
  by (induction ss arbitrary: cs) simp_all

lemma parseClaimsString_loop_None:
  "a \<in> set v \<Longrightarrow> \<forall>s. a \<noteq> JString s \<Longrightarrow> parseClaimsString_loop v cs = None"
proof (induction v arbitrary: cs)
  case Nil
  then show ?case by simp
next
  case (Cons x xs)
  show ?case
  proof (cases x)
    case (JString s)
    with Cons show ?thesis by auto
  qed (simp_all)
qed

section \<open>Case folding\<close>

lemma EqualFold_length: "EqualFold s t \<Longrightarrow> length s = length t"
  unfolding EqualFold_def by (rule map_eq_imp_length_eq)

lemma of_char_lower:
  "(of_char (lower c) :: nat) =
     (if 65 \<le> (of_char c :: nat) \<and> (of_char c :: nat) \<le> 90 then of_char c + 32 else of_char c)"
  by (simp add: lower_def Let_def)

lemma lower_eq_iff:
  "lower c = lower d \<longleftrightarrow>
     (if 65 \<le> (of_char c :: nat) \<and> (of_char c :: nat) \<le> 90 then of_char c + 32 else of_char c)
     = (if 65 \<le> (of_char d :: nat) \<and> (of_char d :: nat) \<le> 90 then of_char d + 32 else (of_char d :: nat))"
proof -
  have "lower c = lower d \<longleftrightarrow> (of_char (lower c) :: nat) = of_char (lower d)"
    by simp
  then show ?thesis
    by (simp only: of_char_lower)
qed

lemma lower_space: "lower c = lower CHR '' '' \<longleftrightarrow> c = CHR '' ''"
proof -
  have "c = CHR '' '' \<longleftrightarrow> (of_char c :: nat) = 32"
    using of_char_eq_iff [of c "CHR '' ''", where ?'a = nat] by simp
  then show ?thesis unfolding lower_eq_iff by (auto simp del: of_char_eq_iff)
qed

lemma of_char_eq_nat: "(of_char c :: nat) = n \<longleftrightarrow> c = char_of n \<and> n < 256"
proof
  assume "(of_char c :: nat) = n"
  then show "c = char_of n \<and> n < 256"
    using char_of_char [of c, where ?'a = nat] nat_of_char_less_256 [of c] by auto
next
  assume "c = char_of n \<and> n < 256"
  then show "(of_char c :: nat) = n"
    by simp
qed

lemma lower_fold_iff:
  "lower c = lower d \<longleftrightarrow>
     c = d \<or>
     (65 \<le> (of_char c :: nat) \<and> (of_char c :: nat) \<le> 90 \<and> (of_char d :: nat) = of_char c + 32) \<or>
     (65 \<le> (of_char d :: nat) \<and> (of_char d :: nat) \<le> 90 \<and> (of_char c :: nat) = of_char d + 32)"
proof -
  have "c = d \<longleftrightarrow> (of_char c :: nat) = of_char d" by simp
  then show ?thesis unfolding lower_eq_iff by (auto simp del: of_char_eq_iff)
qed

lemma lower_Bearer:
  "lower c = lower CHR ''B'' \<longleftrightarrow> c = CHR ''B'' \<or> c = CHR ''b''"
  "lower c = lower CHR ''e'' \<longleftrightarrow> c = CHR ''E'' \<or> c = CHR ''e''"
  "lower c = lower CHR ''a'' \<longleftrightarrow> c = CHR ''A'' \<or> c = CHR ''a''"
  "lower c = lower CHR ''r'' \<longleftrightarrow> c = CHR ''R'' \<or> c = CHR ''r''"
  unfolding lower_fold_iff
  by (auto simp: of_char_eq_nat char_of_def bit_Suc_0_iff)

lemma EqualFold_Bearer_iff:
  "EqualFold s ''Bearer '' \<longleftrightarrow>
     (\<exists>c0 c1 c2 c3 c4 c5.
        s = [c0, c1, c2, c3, c4, c5, CHR '' ''] \<and>
        c0 \<in> {CHR ''B'', CHR ''b''} \<and> c1 \<in> {CHR ''E'', CHR ''e''} \<and>
        c2 \<in> {CHR ''A'', CHR ''a''} \<and> c3 \<in> {CHR ''R'', CHR ''r''} \<and>
        c4 \<in> {CHR ''E'', CHR ''e''} \<and> c5 \<in> {CHR ''R'', CHR ''r''})"
proof -
  have "EqualFold s ''Bearer '' \<longleftrightarrow>
    map lower s = [lower CHR ''B'', lower CHR ''e'', lower CHR ''a'', lower CHR ''r'',
      lower CHR ''e'', lower CHR ''r'', lower CHR '' '']"
    by (simp add: EqualFold_def)
  also have "\<dots> \<longleftrightarrow> (\<exists>c0 c1 c2 c3 c4 c5 c6.
        s = [c0, c1, c2, c3, c4, c5, c6] \<and>
        lower c0 = lower CHR ''B'' \<and> lower c1 = lower CHR ''e'' \<and>
        lower c2 = lower CHR ''a'' \<and> lower c3 = lower CHR ''r'' \<and>
        lower c4 = lower CHR ''e'' \<and> lower c5 = lower CHR ''r'' \<and>
        lower c6 = lower CHR '' '')"
    by (auto simp: map_eq_Cons_conv)
  also have "\<dots> \<longleftrightarrow> (\<exists>c0 c1 c2 c3 c4 c5.
        s = [c0, c1, c2, c3, c4, c5, CHR '' ''] \<and>
        c0 \<in> {CHR ''B'', CHR ''b''} \<and> c1 \<in> {CHR ''E'', CHR ''e''} \<and>
        c2 \<in> {CHR ''A'', CHR ''a''} \<and> c3 \<in> {CHR ''R'', CHR ''r''} \<and>
        c4 \<in> {CHR ''E'', CHR ''e''} \<and> c5 \<in> {CHR ''R'', CHR ''r''})"
    unfolding lower_Bearer lower_space by blast
  finally show ?thesis .
qed

section \<open>The audience claim\<close>

text \<open>
  What \<open>GetAudience\<close> reads: one string is a list of one audience, a list of strings is
  that list, and a list with an element that is not a string reads as no audience at all.
\<close>

lemma GetAudience_string:
  "mapClaims ''aud'' = Some (JString s) \<Longrightarrow> fst (GetAudience mapClaims) = [s]"
  by (simp add: GetAudience_def parseClaimsString_def)

lemma GetAudience_strings:
  "mapClaims ''aud'' = Some (JArray (map JString ss)) \<Longrightarrow> fst (GetAudience mapClaims) = ss"
  by (simp add: GetAudience_def parseClaimsString_def parseClaimsString_loop_Some)

lemma GetAudience_mixed:
  "mapClaims ''aud'' = Some (JArray l) \<Longrightarrow> a \<in> set l \<Longrightarrow> \<forall>s. a \<noteq> JString s \<Longrightarrow>
   fst (GetAudience mapClaims) = []"
  by (simp add: GetAudience_def parseClaimsString_def parseClaimsString_loop_None)

lemma GetAudience_absent:
  "mapClaims ''aud'' = None \<Longrightarrow> fst (GetAudience mapClaims) = []"
  by (simp add: GetAudience_def parseClaimsString_def)

section \<open>Extraction of the bearer token\<close>

text \<open>The header reads as the empty string when it is absent and when its first value is empty.\<close>

lemma Header_Get_empty_iff:
  "Header_Get h key = [] \<longleftrightarrow> h key = None \<or> h key = Some [] \<or> (\<exists>vs. h key = Some ([] # vs))"
  by (auto simp: Header_Get_def split: option.splits list.splits)

lemma EqualFold_Bearer_prefix:
  assumes "h = scheme @ tokenString" and "EqualFold scheme ''Bearer ''"
  shows "take 7 h = scheme" and "drop 7 h = tokenString"
proof -
  have "length scheme = 7"
    using EqualFold_length [OF assms(2)] by simp
  then show "take 7 h = scheme" and "drop 7 h = tokenString"
    using assms(1) by simp_all
qed

lemma extractBearerToken_split:
  assumes "Header_Get (Header r) ''Authorization'' = scheme @ tokenString"
    and "EqualFold scheme ''Bearer ''" and "tokenString \<noteq> []"
  shows "extractBearerToken r = Inr tokenString"
proof -
  define h where "h = Header_Get (Header r) ''Authorization''"
  have h: "h = scheme @ tokenString"
    using assms(1) by (simp add: h_def)
  have "length scheme = 7"
    using EqualFold_length [OF assms(2)] by simp
  then have "length h > 7"
    using h assms(3) by (cases tokenString) simp_all
  moreover have "take 7 h = scheme" "drop 7 h = tokenString"
    using EqualFold_Bearer_prefix [OF h assms(2)] .
  moreover have "h \<noteq> []"
    using h assms(3) by simp
  ultimately show ?thesis
    using assms(2) unfolding extractBearerToken_def Let_def h_def [symmetric]
    by simp
qed

lemma extractBearerToken_Inr:
  assumes "extractBearerToken r = Inr tokenString"
  shows "tokenString \<noteq> [] \<and> EqualFold (take 7 (Header_Get (Header r) ''Authorization'')) ''Bearer '' \<and>
    Header_Get (Header r) ''Authorization'' = take 7 (Header_Get (Header r) ''Authorization'') @ tokenString"
  using assms unfolding extractBearerToken_def Let_def
  by (auto split: if_splits)

text \<open>
  C7, as amended. An absent \<open>Authorization\<close> header, and one whose value is empty, gives
  \<open>ErrMissingAuthHeader\<close>. A header made of a scheme that equals \<open>Bearer \<close> up to case,
  followed by a token that is not empty, gives that token unchanged. Every other header
  that is not empty gives \<open>ErrInvalidAuthHeaderFormat\<close>. A scheme equals \<open>Bearer \<close> up to
  case when it spells these six letters, each in upper or lower case, and ends with the
  space.
\<close>

theorem extractBearerToken_header:
  "(Header_Get (Header r) ''Authorization'' = [] \<longrightarrow>
      extractBearerToken r = Inl ErrMissingAuthHeader) \<and>
   (Header_Get (Header r) ''Authorization'' = scheme @ tokenString \<and>
    EqualFold scheme ''Bearer '' \<and> tokenString \<noteq> [] \<longrightarrow>
      extractBearerToken r = Inr tokenString) \<and>
   (Header_Get (Header r) ''Authorization'' \<noteq> [] \<and>
    (\<nexists>s t. Header_Get (Header r) ''Authorization'' = s @ t \<and> EqualFold s ''Bearer '' \<and> t \<noteq> []) \<longrightarrow>
      extractBearerToken r = Inl ErrInvalidAuthHeaderFormat) \<and>
   (EqualFold scheme ''Bearer '' \<longleftrightarrow>
      (\<exists>c0 c1 c2 c3 c4 c5.
         scheme = [c0, c1, c2, c3, c4, c5, CHR '' ''] \<and>
         c0 \<in> {CHR ''B'', CHR ''b''} \<and> c1 \<in> {CHR ''E'', CHR ''e''} \<and>
         c2 \<in> {CHR ''A'', CHR ''a''} \<and> c3 \<in> {CHR ''R'', CHR ''r''} \<and>
         c4 \<in> {CHR ''E'', CHR ''e''} \<and> c5 \<in> {CHR ''R'', CHR ''r''}))"
proof (intro conjI impI)
  show "EqualFold scheme ''Bearer '' \<longleftrightarrow>
      (\<exists>c0 c1 c2 c3 c4 c5.
         scheme = [c0, c1, c2, c3, c4, c5, CHR '' ''] \<and>
         c0 \<in> {CHR ''B'', CHR ''b''} \<and> c1 \<in> {CHR ''E'', CHR ''e''} \<and>
         c2 \<in> {CHR ''A'', CHR ''a''} \<and> c3 \<in> {CHR ''R'', CHR ''r''} \<and>
         c4 \<in> {CHR ''E'', CHR ''e''} \<and> c5 \<in> {CHR ''R'', CHR ''r''})"
    by (rule EqualFold_Bearer_iff)
next
  assume "Header_Get (Header r) ''Authorization'' = []"
  then show "extractBearerToken r = Inl ErrMissingAuthHeader"
    by (simp add: extractBearerToken_def)
next
  assume "Header_Get (Header r) ''Authorization'' = scheme @ tokenString \<and>
    EqualFold scheme ''Bearer '' \<and> tokenString \<noteq> []"
  then show "extractBearerToken r = Inr tokenString"
    using extractBearerToken_split by blast
next
  assume a: "Header_Get (Header r) ''Authorization'' \<noteq> [] \<and>
    (\<nexists>s t. Header_Get (Header r) ''Authorization'' = s @ t \<and> EqualFold s ''Bearer '' \<and> t \<noteq> [])"
  show "extractBearerToken r = Inl ErrInvalidAuthHeaderFormat"
  proof (cases "extractBearerToken r")
    case (Inl e)
    then show ?thesis using a unfolding extractBearerToken_def Let_def
      by (auto split: if_splits)
  next
    case (Inr t)
    from extractBearerToken_Inr [OF this] a show ?thesis by blast
  qed
qed

theorem extractBearerToken_header_witness:
  "extractBearerToken \<lparr>Header = Map.empty, RemoteAddr = []\<rparr> = Inl ErrMissingAuthHeader \<and>
   extractBearerToken (bench_request []) = Inl ErrMissingAuthHeader \<and>
   extractBearerToken (bench_request ''bEaReR abc.DEF'') = Inr ''abc.DEF'' \<and>
   extractBearerToken (bench_request ''Basic abc.DEF'') = Inl ErrInvalidAuthHeaderFormat"
proof -
  have 1: "Header_Get (Header \<lparr>Header = Map.empty, RemoteAddr = []\<rparr>) ''Authorization'' = []"
    by (simp add: Header_Get_def)
  have 2: "Header_Get (Header (bench_request [])) ''Authorization'' = []"
    by (simp add: Header_Get_def bench_request_def)
  have 3: "Header_Get (Header (bench_request ''bEaReR abc.DEF'')) ''Authorization'' = ''bEaReR '' @ ''abc.DEF'' \<and>
    EqualFold ''bEaReR '' ''Bearer '' \<and> ''abc.DEF'' \<noteq> []"
    by (simp add: Header_Get_def bench_request_def EqualFold_def lower_def char_of_def bit_Suc_0_iff)
  have "\<not> EqualFold (take 7 ''Basic abc.DEF'') ''Bearer ''"
    by (simp add: EqualFold_def lower_def char_of_def bit_Suc_0_iff)
  then have "\<nexists>s t. ''Basic abc.DEF'' = s @ t \<and> EqualFold s ''Bearer '' \<and> t \<noteq> []"
    using EqualFold_Bearer_prefix(1) by metis
  then have 4: "Header_Get (Header (bench_request ''Basic abc.DEF'')) ''Authorization'' \<noteq> [] \<and>
    (\<nexists>s t. Header_Get (Header (bench_request ''Basic abc.DEF'')) ''Authorization'' = s @ t \<and>
      EqualFold s ''Bearer '' \<and> t \<noteq> [])"
    by (simp add: Header_Get_def bench_request_def)
  show ?thesis
    using extractBearerToken_header [of "\<lparr>Header = Map.empty, RemoteAddr = []\<rparr>",
        THEN conjunct1, rule_format, OF 1]
      extractBearerToken_header [of "bench_request []", THEN conjunct1, rule_format, OF 2]
      extractBearerToken_header [of "bench_request ''bEaReR abc.DEF''" "''bEaReR ''" "''abc.DEF''",
        THEN conjunct2, THEN conjunct1, rule_format, OF 3]
      extractBearerToken_header [of "bench_request ''Basic abc.DEF''",
        THEN conjunct2, THEN conjunct2, THEN conjunct1, rule_format, OF 4]
    by simp
qed

text \<open>
  C7 as stated fails on the header \<open>Bearer \<close> with nothing after it: it starts with the
  prefix, yet the text after the prefix is not returned.
\<close>

theorem extractBearerToken_bare_scheme_counterexample:
  "Header_Get (Header (bench_request ''Bearer '')) ''Authorization'' = ''Bearer '' \<and>
   EqualFold (take 7 ''Bearer '') ''Bearer '' \<and>
   extractBearerToken (bench_request ''Bearer '') = Inl ErrInvalidAuthHeaderFormat \<and>
   extractBearerToken (bench_request ''Bearer '') \<noteq> Inr (drop 7 ''Bearer '')"
  by (simp add: extractBearerToken_def Header_Get_def bench_request_def EqualFold_def)

section \<open>The test bench, evaluated\<close>

lemmas bench_defs =
  validateToken_def ParseWithClaims_def keyFunc_def bench_lib_def bench_ParseUnverified_def
  bench_token_def bench_keys_def bench_jwksV1_def bench_jwksV2_def contoso_def
  claims_alice_def claims_evil_def claims_other_aud_def claims_no_iss_def
  GetIssuer_def GetAudience_def parseString_def parseClaimsString_def unflagged_parser_def Let_def

lemma bench_extract:
  "extractBearerToken (bench_request (''Bearer '' @ c # cs)) = Inr (c # cs)"
  by (simp add: extractBearerToken_def Header_Get_def bench_request_def EqualFold_def)

lemma bench_forged:
  "validateToken (ParseWithClaims bench_lib) contoso ''forged'' =
     ([KeyfuncV2, MethodVerify], Inl (Errorf ''%w: %v'' ErrTokenParsingFailed (VError SignatureInvalid)))"
  by (simp add: bench_defs)

lemma bench_hs256:
  "validateToken (ParseWithClaims bench_lib) contoso ''hs256'' =
     ([], Inl (Errorf ''%w: %v'' ErrTokenParsingFailed (VError (SigningMethodInvalid ''HS256''))))"
  by (simp add: bench_defs)

lemma bench_unknown_kid:
  "validateToken (ParseWithClaims bench_lib) contoso ''unknown-kid'' =
     ([KeyfuncV2, KeyfuncV1], Inl (Errorf ''%w: %v'' ErrTokenParsingFailed
        (VError (KeyfuncError ''not in the v1 key set''))))"
  by (simp add: bench_defs)

lemma bench_evil:
  "validateToken (ParseWithClaims bench_lib) contoso ''evil'' =
     ([KeyfuncV2, MethodVerify], Inl (Errorf ''%w. Received: %s'' ErrInvalidIssuer
        (VString ''https://evil.example/contoso/v2.0'')))"
  by (simp add: bench_defs)

lemma bench_no_iss:
  "validateToken (ParseWithClaims bench_lib) contoso ''no-iss'' =
     ([KeyfuncV2, MethodVerify], Inl (Errorf ''%w. Received: %s'' ErrInvalidIssuer (VString [])))"
  by (simp add: bench_defs)

lemma bench_other_aud:
  "validateToken (ParseWithClaims bench_lib) contoso ''other-aud'' =
     ([KeyfuncV2, MethodVerify], Inl (Errorf ''%w. Received: %v'' ErrInvalidAudience (VStrings [''api://other''])))"
  by (simp add: bench_defs)

lemma bench_alice:
  "validateToken (ParseWithClaims bench_lib) contoso ''alice'' =
     ([KeyfuncV2, MethodVerify], Inr (buildUserClaims contoso claims_alice))"
  by (simp add: bench_defs)

lemma bench_alice_v1:
  "validateToken (ParseWithClaims bench_lib) contoso ''alice-v1'' =
     ([KeyfuncV2, KeyfuncV1, MethodVerify], Inr (buildUserClaims contoso claims_alice))"
  by (simp add: bench_defs)

lemma bench_unflagged:
  "validateToken unflagged_parser contoso ''alice'' = ([], Inl ErrTokenInvalid)"
  by (simp add: bench_defs)

lemma bench_NewValidator:
  "NewValidator bench_env ''contoso'' [WithAudiences [''api://myapp'']] = Inr contoso"
  by (simp add: NewValidator_def bench_env_def contoso_def)

section \<open>Tokens from extraction are not empty\<close>

text \<open>
  C10. A token returned by extraction is never empty; a header that is the scheme
  \<open>Bearer \<close> alone, in any case variant, gives \<open>ErrInvalidAuthHeaderFormat\<close>; and the
  middleware never hands the empty string to the parser: two parsers that agree on every
  token string but the empty one give the same middleware.
\<close>

theorem extractBearerToken_nonempty:
  "(extractBearerToken r = Inr tokenString \<longrightarrow> tokenString \<noteq> []) \<and>
   (EqualFold (Header_Get (Header r) ''Authorization'') ''Bearer '' \<longrightarrow>
      extractBearerToken r = Inl ErrInvalidAuthHeaderFormat) \<and>
   ((\<forall>t. t \<noteq> [] \<longrightarrow> parse t = parse' t) \<longrightarrow> Middleware parse v r = Middleware parse' v r)"
proof (intro conjI impI)
  assume "extractBearerToken r = Inr tokenString"
  then show "tokenString \<noteq> []"
    using extractBearerToken_Inr by blast
next
  assume "EqualFold (Header_Get (Header r) ''Authorization'') ''Bearer ''"
  from EqualFold_length [OF this]
  have "length (Header_Get (Header r) ''Authorization'') = 7"
    by simp
  then show "extractBearerToken r = Inl ErrInvalidAuthHeaderFormat"
    unfolding extractBearerToken_def Let_def by auto
next
  assume same: "\<forall>t. t \<noteq> [] \<longrightarrow> parse t = parse' t"
  show "Middleware parse v r = Middleware parse' v r"
  proof (cases "extractBearerToken r")
    case (Inl e)
    then show ?thesis by (simp add: Middleware_def)
  next
    case (Inr t)
    then have "t \<noteq> []"
      using extractBearerToken_Inr by blast
    with same have "parse t = parse' t"
      by simp
    then have "validateToken parse v t = validateToken parse' v t"
      by (simp add: validateToken_def)
    with Inr show ?thesis by (simp add: Middleware_def)
  qed
qed

theorem extractBearerToken_nonempty_witness:
  "extractBearerToken (bench_request ''Bearer x'') = Inr ''x'' \<and> ''x'' \<noteq> [] \<and>
   extractBearerToken (bench_request ''BEARER '') = Inl ErrInvalidAuthHeaderFormat \<and>
   Middleware (ParseWithClaims bench_lib) contoso (bench_request ''Bearer alice'') =
   Middleware (\<lambda>t. if t = [] then unflagged_parser t else ParseWithClaims bench_lib t)
     contoso (bench_request ''Bearer alice'')"
proof -
  have 1: "extractBearerToken (bench_request ''Bearer x'') = Inr ''x''"
    by (simp add: extractBearerToken_def Header_Get_def bench_request_def EqualFold_def)
  have 2: "EqualFold (Header_Get (Header (bench_request ''BEARER '')) ''Authorization'') ''Bearer ''"
    by (simp add: Header_Get_def bench_request_def EqualFold_def lower_def char_of_def bit_Suc_0_iff)
  have 3: "\<forall>t. t \<noteq> [] \<longrightarrow>
    ParseWithClaims bench_lib t = (\<lambda>t. if t = [] then unflagged_parser t else ParseWithClaims bench_lib t) t"
    by simp
  show ?thesis
    using extractBearerToken_nonempty [of "bench_request ''Bearer x''" "''x''"] 1
      extractBearerToken_nonempty [of "bench_request ''BEARER ''"] 2
      extractBearerToken_nonempty [where r = "bench_request ''Bearer alice''" and v = contoso
        and parse = "ParseWithClaims bench_lib"
        and parse' = "\<lambda>t. if t = [] then unflagged_parser t else ParseWithClaims bench_lib t"] 3
    by blast
qed

section \<open>Failures of the parser\<close>

lemma ParseWithClaims_Valid:
  "snd (ParseWithClaims lib tokenString resolve validMethods) = Inr token \<Longrightarrow> Valid token"
  unfolding ParseWithClaims_def
  by (auto split: sum.splits prod.splits option.splits if_splits)

lemma validateToken_library_never_TokenInvalid:
  "snd (validateToken (ParseWithClaims lib) v tokenString) \<noteq> Inl ErrTokenInvalid"
proof
  assume a: "snd (validateToken (ParseWithClaims lib) v tokenString) = Inl ErrTokenInvalid"
  show False
  proof (cases "snd (ParseWithClaims lib tokenString (keyFunc v) [''RS256''])")
    case (Inl e)
    with a show False
      by (auto simp: validateToken_def split: prod.splits)
  next
    case (Inr token)
    from ParseWithClaims_Valid [OF this] Inr a show False
      by (auto simp: validateToken_def Let_def split: prod.splits if_splits)
  qed
qed

text \<open>
  C1, as amended. Every error of the parser is returned as \<open>ErrTokenParsingFailed\<close> wrapping
  it; \<open>ErrTokenInvalid\<close> is returned exactly when the parser returns a token without an
  error and without the valid flag. With the parser of the dependency, a signature that
  does not verify under the resolved key is an error of the parser, and so comes back as
  \<open>ErrTokenParsingFailed\<close>.
\<close>

theorem validateToken_parser_failure:
  "(snd (parse tokenString (keyFunc v) [''RS256'']) = Inl err \<longrightarrow>
      snd (validateToken parse v tokenString) =
        Inl (Errorf ''%w: %v'' ErrTokenParsingFailed (VError err))) \<and>
   (snd (validateToken parse v tokenString) = Inl ErrTokenInvalid \<longleftrightarrow>
      (\<exists>token. snd (parse tokenString (keyFunc v) [''RS256'']) = Inr token \<and> \<not> Valid token)) \<and>
   (ParseUnverified lib tokenString = Inr (token, p0, p1, p2) \<and> Method token = ''RS256'' \<and>
    DecodeSegment lib p2 = Some sig \<and>
    snd (keyFunc v (token\<lparr>Signature := sig\<rparr>)) = Inr key \<and>
    \<not> Verify lib ''RS256'' (p0 @ ''.'' @ p1) sig key \<longrightarrow>
      snd (validateToken (ParseWithClaims lib) v tokenString) =
        Inl (Errorf ''%w: %v'' ErrTokenParsingFailed (VError SignatureInvalid)))"
proof (intro conjI impI)
  assume "snd (parse tokenString (keyFunc v) [''RS256'']) = Inl err"
  then show "snd (validateToken parse v tokenString) =
      Inl (Errorf ''%w: %v'' ErrTokenParsingFailed (VError err))"
    by (auto simp: validateToken_def split: prod.splits)
next
  show "snd (validateToken parse v tokenString) = Inl ErrTokenInvalid \<longleftrightarrow>
      (\<exists>token. snd (parse tokenString (keyFunc v) [''RS256'']) = Inr token \<and> \<not> Valid token)"
    by (cases "parse tokenString (keyFunc v) [''RS256'']")
      (auto simp: validateToken_def Let_def split: sum.splits)
next
  assume a: "ParseUnverified lib tokenString = Inr (token, p0, p1, p2) \<and> Method token = ''RS256'' \<and>
    DecodeSegment lib p2 = Some sig \<and>
    snd (keyFunc v (token\<lparr>Signature := sig\<rparr>)) = Inr key \<and>
    \<not> Verify lib ''RS256'' (p0 @ ''.'' @ p1) sig key"
  then have "snd (ParseWithClaims lib tokenString (keyFunc v) [''RS256'']) = Inl SignatureInvalid"
    by (cases "keyFunc v (token\<lparr>Signature := sig\<rparr>)") (simp add: ParseWithClaims_def)
  then show "snd (validateToken (ParseWithClaims lib) v tokenString) =
      Inl (Errorf ''%w: %v'' ErrTokenParsingFailed (VError SignatureInvalid))"
    by (auto simp: validateToken_def split: prod.splits)
qed

theorem validateToken_parser_failure_witness:
  "snd (validateToken (ParseWithClaims bench_lib) contoso ''unknown-kid'') =
     Inl (Errorf ''%w: %v'' ErrTokenParsingFailed (VError (KeyfuncError ''not in the v1 key set''))) \<and>
   snd (validateToken unflagged_parser contoso ''alice'') = Inl ErrTokenInvalid \<and>
   snd (validateToken (ParseWithClaims bench_lib) contoso ''forged'') =
     Inl (Errorf ''%w: %v'' ErrTokenParsingFailed (VError SignatureInvalid))"
proof -
  have 1: "snd (ParseWithClaims bench_lib ''unknown-kid'' (keyFunc contoso) [''RS256'']) =
    Inl (KeyfuncError ''not in the v1 key set'')"
    by (simp add: bench_defs)
  have 2: "\<exists>token. snd (unflagged_parser ''alice'' (keyFunc contoso) [''RS256'']) = Inr token \<and>
    \<not> Valid token"
    by (simp add: unflagged_parser_def bench_token_def)
  have 3: "ParseUnverified bench_lib ''forged'' =
      Inr (bench_token ''forged'' ''RS256'' ''k2'' claims_alice, ''h'', ''c'', ''bogus'') \<and>
    Method (bench_token ''forged'' ''RS256'' ''k2'' claims_alice) = ''RS256'' \<and>
    DecodeSegment bench_lib ''bogus'' = Some ''bogus'' \<and>
    snd (keyFunc contoso (bench_token ''forged'' ''RS256'' ''k2'' claims_alice\<lparr>Signature := ''bogus''\<rparr>)) =
      Inr ''key2'' \<and>
    \<not> Verify bench_lib ''RS256'' (''h'' @ ''.'' @ ''c'') ''bogus'' ''key2''"
    by (simp add: bench_defs)
  show ?thesis
    using validateToken_parser_failure [where parse = "ParseWithClaims bench_lib" and v = contoso
        and tokenString = "''unknown-kid''", THEN conjunct1, rule_format, OF 1]
      validateToken_parser_failure [where parse = unflagged_parser and v = contoso
        and tokenString = "''alice''", THEN conjunct2, THEN conjunct1, THEN iffD2, OF 2]
      validateToken_parser_failure [where lib = bench_lib
        and parse = "ParseWithClaims bench_lib" and v = contoso,
        THEN conjunct2, THEN conjunct2, rule_format, OF 3]
    by simp
qed

text \<open>
  C1 as stated fails on a token whose key resolves in the v2 key set and whose signature
  does not verify under it: the result is not \<open>ErrTokenInvalid\<close>.
\<close>

theorem validateToken_forged_counterexample:
  "ParseUnverified bench_lib ''forged'' =
     Inr (bench_token ''forged'' ''RS256'' ''k2'' claims_alice, ''h'', ''c'', ''bogus'') \<and>
   keyFunc contoso (bench_token ''forged'' ''RS256'' ''k2'' claims_alice\<lparr>Signature := ''bogus''\<rparr>) =
     ([KeyfuncV2], Inr ''key2'') \<and>
   \<not> Verify bench_lib ''RS256'' ''h.c'' ''bogus'' ''key2'' \<and>
   snd (validateToken (ParseWithClaims bench_lib) contoso ''forged'') \<noteq> Inl ErrTokenInvalid"
  by (simp add: bench_defs)

section \<open>The signing algorithm\<close>

lemma keyFunc_calls:
  "fst (keyFunc v token) = [KeyfuncV2] \<or> fst (keyFunc v token) = [KeyfuncV2, KeyfuncV1]"
  by (simp add: keyFunc_def split: sum.splits)

text \<open>
  C3. A token that decodes and whose header names an algorithm other than RS256 is rejected
  with the parser's signing-method error, and neither a key set nor the signature check
  has been called: the list of calls is empty, while every call of the resolver leaves an
  entry in it.
\<close>

theorem validateToken_other_algorithm:
  "(ParseUnverified lib tokenString = Inr (token, parts) \<and> Method token \<noteq> ''RS256'' \<longrightarrow>
      validateToken (ParseWithClaims lib) v tokenString =
        ([], Inl (Errorf ''%w: %v'' ErrTokenParsingFailed
                  (VError (SigningMethodInvalid (Method token)))))) \<and>
   fst (keyFunc v token) \<noteq> []"
proof
  show "ParseUnverified lib tokenString = Inr (token, parts) \<and> Method token \<noteq> ''RS256'' \<longrightarrow>
      validateToken (ParseWithClaims lib) v tokenString =
        ([], Inl (Errorf ''%w: %v'' ErrTokenParsingFailed
                  (VError (SigningMethodInvalid (Method token)))))"
    by (cases parts) (auto simp: validateToken_def ParseWithClaims_def)
  show "fst (keyFunc v token) \<noteq> []"
    using keyFunc_calls [of v token] by auto
qed

theorem validateToken_other_algorithm_witness:
  "validateToken (ParseWithClaims bench_lib) contoso ''hs256'' =
     ([], Inl (Errorf ''%w: %v'' ErrTokenParsingFailed (VError (SigningMethodInvalid ''HS256''))))"
proof -
  have "ParseUnverified bench_lib ''hs256'' =
      Inr (bench_token ''hs256'' ''HS256'' ''k2'' claims_alice, ''h'', ''c'', ''key2'') \<and>
    Method (bench_token ''hs256'' ''HS256'' ''k2'' claims_alice) \<noteq> ''RS256''"
    by (simp add: bench_lib_def bench_ParseUnverified_def bench_token_def)
  from validateToken_other_algorithm [where v = contoso, THEN conjunct1, rule_format, OF this]
  show ?thesis
    by (simp add: bench_token_def)
qed

section \<open>Key resolution\<close>

text \<open>
  C6. The resolver asks the v2 key set first and returns its key when there is one. Only
  when the v2 key set fails does it ask the v1 key set, and then its result is the v1
  key set's result: the v1 key when the v1 key set has one, the v1 error when both fail.
\<close>

theorem keyFunc_v2_then_v1:
  "(jwksV2 v token = Inr key \<longrightarrow> keyFunc v token = ([KeyfuncV2], Inr key)) \<and>
   (jwksV2 v token = Inl err2 \<longrightarrow> keyFunc v token = ([KeyfuncV2, KeyfuncV1], jwksV1 v token)) \<and>
   (jwksV2 v token = Inl err2 \<and> jwksV1 v token = Inl err1 \<longrightarrow>
      snd (keyFunc v token) = Inl err1) \<and>
   (jwksV2 v token = Inl err2 \<and> jwksV1 v token = Inr key1 \<longrightarrow>
      snd (keyFunc v token) = Inr key1) \<and>
   hd (fst (keyFunc v token)) = KeyfuncV2 \<and>
   (KeyfuncV1 \<in> set (fst (keyFunc v token)) \<longleftrightarrow> (\<exists>e. jwksV2 v token = Inl e))"
  by (auto simp: keyFunc_def split: sum.splits)

theorem keyFunc_v2_then_v1_witness:
  "keyFunc contoso (bench_token ''alice'' ''RS256'' ''k2'' claims_alice) = ([KeyfuncV2], Inr ''key2'') \<and>
   keyFunc contoso (bench_token ''alice-v1'' ''RS256'' ''k1'' claims_alice) = ([KeyfuncV2, KeyfuncV1], Inr ''key1'') \<and>
   snd (keyFunc contoso (bench_token ''unknown-kid'' ''RS256'' ''k9'' claims_alice)) =
     Inl ''not in the v1 key set'' \<and>
   validateToken (ParseWithClaims bench_lib) contoso ''alice-v1'' =
     ([KeyfuncV2, KeyfuncV1, MethodVerify], Inr (buildUserClaims contoso claims_alice))"
proof -
  have 1: "jwksV2 contoso (bench_token ''alice'' ''RS256'' ''k2'' claims_alice) = Inr ''key2''"
    by (simp add: contoso_def bench_jwksV2_def bench_keys_def bench_token_def)
  have 2: "jwksV2 contoso (bench_token ''alice-v1'' ''RS256'' ''k1'' claims_alice) =
    Inl ''not in the v2 key set''"
    by (simp add: contoso_def bench_jwksV2_def bench_keys_def bench_token_def)
  have 3: "jwksV1 contoso (bench_token ''alice-v1'' ''RS256'' ''k1'' claims_alice) = Inr ''key1''"
    by (simp add: contoso_def bench_jwksV1_def bench_keys_def bench_token_def)
  have 4: "jwksV2 contoso (bench_token ''unknown-kid'' ''RS256'' ''k9'' claims_alice) =
      Inl ''not in the v2 key set'' \<and>
    jwksV1 contoso (bench_token ''unknown-kid'' ''RS256'' ''k9'' claims_alice) =
      Inl ''not in the v1 key set''"
    by (simp add: contoso_def bench_jwksV1_def bench_jwksV2_def bench_keys_def bench_token_def)
  show ?thesis
    using keyFunc_v2_then_v1 [THEN conjunct1, rule_format, OF 1]
      keyFunc_v2_then_v1 [THEN conjunct2, THEN conjunct1, rule_format, OF 2]
      keyFunc_v2_then_v1 [THEN conjunct2, THEN conjunct2, THEN conjunct1, rule_format, OF 4]
      3 bench_alice_v1
    by simp
qed

section \<open>Options and construction\<close>

lemma applyOptions_fixed:
  "validIssuers (applyOptions opts v) = validIssuers v"
  "jwksV1 (applyOptions opts v) = jwksV1 v"
  "jwksV2 (applyOptions opts v) = jwksV2 v"
proof (induction opts arbitrary: v)
  case Nil
  {
    case 1 show ?case by simp
  next
    case 2 show ?case by simp
  next
    case 3 show ?case by simp
  }
next
  case (Cons opt opts)
  {
    case 1 show ?case by (cases opt) (simp_all add: Cons.IH)
  next
    case 2 show ?case by (cases opt) (simp_all add: Cons.IH)
  next
    case 3 show ?case by (cases opt) (simp_all add: Cons.IH)
  }
qed

lemma applyOptions_enabled:
  "isAudienceCheckEnabled (applyOptions opts v) \<longleftrightarrow>
     isAudienceCheckEnabled v \<and> WithoutAudienceValidation \<notin> set opts"
proof (induction opts arbitrary: v)
  case Nil
  show ?case by simp
next
  case (Cons opt opts)
  show ?case by (cases opt) (auto simp: Cons.IH)
qed

lemma applyOptions_audiences:
  "validAudiences (applyOptions opts v) = validAudiences v \<or>
   WithAudiences (validAudiences (applyOptions opts v)) \<in> set opts"
proof (induction opts arbitrary: v)
  case Nil
  show ?case by simp
next
  case (Cons opt opts)
  show ?case using Cons.IH [of "applyOption opt v"] by (cases opt) auto
qed

lemma applyOptions_audiences_from_empty:
  "validAudiences v = [] \<Longrightarrow>
   WithAudiences (validAudiences (applyOptions opts v)) \<notin> set opts \<Longrightarrow>
   validAudiences (applyOptions opts v) = []"
  using applyOptions_audiences [of opts v] by auto

lemma applyOptions_audiences_cong:
  "validAudiences a = validAudiences b \<Longrightarrow>
   validAudiences (applyOptions opts a) = validAudiences (applyOptions opts b)"
proof (induction opts arbitrary: a b)
  case Nil
  then show ?case by simp
next
  case (Cons opt opts)
  show ?case
    by (cases opt) (auto intro!: Cons.IH simp: Cons.prems)
qed

text \<open>What a successful construction returns.\<close>

lemma NewValidator_Inr:
  assumes "NewValidator env tenantID opts = Inr v"
  shows "tenantID \<noteq> []"
    and "validIssuers v =
      [''https://sts.windows.net/'' @ tenantID @ ''/'',
       ''https://login.microsoftonline.com/'' @ tenantID @ ''/v2.0'']"
    and "isAudienceCheckEnabled v \<longleftrightarrow> WithoutAudienceValidation \<notin> set opts"
    and "validAudiences v = [] \<or> WithAudiences (validAudiences v) \<in> set opts"
    and "isAudienceCheckEnabled v \<longrightarrow> validAudiences v \<noteq> []"
    and "logger v \<noteq> None"
proof -
  from assms show "tenantID \<noteq> []"
    by (auto simp: NewValidator_def split: if_splits)
  from assms show "validIssuers v =
      [''https://sts.windows.net/'' @ tenantID @ ''/'',
       ''https://login.microsoftonline.com/'' @ tenantID @ ''/v2.0'']"
    unfolding NewValidator_def Let_def
    by (auto simp: applyOptions_fixed split: if_splits sum.splits option.splits)
  from assms show "isAudienceCheckEnabled v \<longleftrightarrow> WithoutAudienceValidation \<notin> set opts"
    unfolding NewValidator_def Let_def
    by (auto simp: applyOptions_enabled split: if_splits sum.splits option.splits)
  from assms show "validAudiences v = [] \<or> WithAudiences (validAudiences v) \<in> set opts"
    unfolding NewValidator_def Let_def
    by (auto intro!: applyOptions_audiences_from_empty split: if_splits sum.splits option.splits)
  from assms show "isAudienceCheckEnabled v \<longrightarrow> validAudiences v \<noteq> []"
    unfolding NewValidator_def Let_def
    by (auto split: if_splits sum.splits option.splits)
  from assms show "logger v \<noteq> None"
    unfolding NewValidator_def Let_def
    by (auto split: if_splits sum.splits option.splits)
qed

lemma NewValidator_Inr_audiences:
  assumes "NewValidator env tenantID opts = Inr v" and "validAudiences v0 = []"
  shows "validAudiences v = validAudiences (applyOptions opts v0)"
  using assms(1) unfolding NewValidator_def Let_def
  by (auto split: if_splits sum.splits option.splits
      intro!: applyOptions_audiences_cong simp: assms(2))

text \<open>
  C9. Construction fails for the empty tenant identifier. It fails when no option disables
  the audience check and the options leave the accepted audiences empty. A validator that
  was constructed with the audience check enabled has an accepted audience.
\<close>

theorem NewValidator_requirements:
  "NewValidator env [] opts = Inl EmptyTenantID \<and>
   (WithoutAudienceValidation \<notin> set opts \<and> validAudiences v0 = [] \<and>
    validAudiences (applyOptions opts v0) = [] \<longrightarrow>
      (\<exists>err. NewValidator env tenantID opts = Inl err)) \<and>
   (NewValidator env tenantID opts = Inr v \<and> isAudienceCheckEnabled v \<longrightarrow>
      validAudiences v \<noteq> [])"
proof (intro conjI impI)
  show "NewValidator env [] opts = Inl EmptyTenantID"
    by (simp add: NewValidator_def)
next
  assume a: "WithoutAudienceValidation \<notin> set opts \<and> validAudiences v0 = [] \<and>
    validAudiences (applyOptions opts v0) = []"
  show "\<exists>err. NewValidator env tenantID opts = Inl err"
  proof (cases "NewValidator env tenantID opts")
    case (Inl err)
    then show ?thesis by simp
  next
    case (Inr v)
    from NewValidator_Inr(3,5) [OF Inr] a have "validAudiences v \<noteq> []"
      by simp
    moreover from NewValidator_Inr_audiences [OF Inr, of v0] a have "validAudiences v = []"
      by simp
    ultimately show ?thesis by simp
  qed
next
  assume "NewValidator env tenantID opts = Inr v \<and> isAudienceCheckEnabled v"
  then show "validAudiences v \<noteq> []"
    using NewValidator_Inr(5) by blast
qed

theorem NewValidator_requirements_witness:
  "NewValidator bench_env [] [WithAudiences [''api://myapp'']] = Inl EmptyTenantID \<and>
   (\<exists>err. NewValidator bench_env ''contoso'' [WithLogger (Some (Logger 1))] = Inl err) \<and>
   (\<exists>err. NewValidator bench_env ''contoso'' [WithAudiences [''api://myapp''], WithAudiences []] =
      Inl err) \<and>
   NewValidator bench_env ''contoso'' [WithAudiences [''api://myapp'']] = Inr contoso \<and>
   isAudienceCheckEnabled contoso \<and> validAudiences contoso \<noteq> []"
proof -
  have 1: "WithoutAudienceValidation \<notin> set [WithLogger (Some (Logger 1))] \<and>
    validAudiences (contoso\<lparr>validAudiences := []\<rparr>) = [] \<and>
    validAudiences (applyOptions [WithLogger (Some (Logger 1))] (contoso\<lparr>validAudiences := []\<rparr>)) = []"
    by simp
  have 2: "WithoutAudienceValidation \<notin> set [WithAudiences [''api://myapp''], WithAudiences []] \<and>
    validAudiences (contoso\<lparr>validAudiences := []\<rparr>) = [] \<and>
    validAudiences (applyOptions [WithAudiences [''api://myapp''], WithAudiences []]
      (contoso\<lparr>validAudiences := []\<rparr>)) = []"
    by simp
  have 3: "NewValidator bench_env ''contoso'' [WithAudiences [''api://myapp'']] = Inr contoso \<and>
    isAudienceCheckEnabled contoso"
    by (simp add: bench_NewValidator) (simp add: contoso_def)
  show ?thesis
    using NewValidator_requirements [of bench_env "[WithAudiences [''api://myapp'']]"]
      NewValidator_requirements [where env = bench_env and tenantID = "''contoso''",
        THEN conjunct2, THEN conjunct1, rule_format, OF 1]
      NewValidator_requirements [where env = bench_env and tenantID = "''contoso''",
        THEN conjunct2, THEN conjunct1, rule_format, OF 2]
      NewValidator_requirements [THEN conjunct2, THEN conjunct2, rule_format, OF 3] 3
    by simp
qed

section \<open>The issuer and audience checks\<close>

text \<open>What \<open>validateToken\<close> returns for a token the parser accepted.\<close>

lemma validateToken_accepted:
  assumes "snd (parse tokenString (keyFunc v) [''RS256'']) = Inr token" and "Valid token"
  shows "snd (validateToken parse v tokenString) =
    (if fst (GetIssuer (Claims token)) \<notin> set (validIssuers v)
     then Inl (Errorf ''%w. Received: %s'' ErrInvalidIssuer (VString (fst (GetIssuer (Claims token)))))
     else if isAudienceCheckEnabled v \<and>
        \<not> (\<exists>a \<in> set (fst (GetAudience (Claims token))). a \<in> set (validAudiences v))
     then Inl (Errorf ''%w. Received: %v'' ErrInvalidAudience
            (VStrings (fst (GetAudience (Claims token)))))
     else Inr (buildUserClaims v (Claims token)))"
  using assms
  by (cases "parse tokenString (keyFunc v) [''RS256'']")
    (simp add: validateToken_def Let_def Contains_iff audiencesIntersect_iff)

text \<open>
  C5. For a validator built for a tenant and a token the parser accepted: when the issuer
  claim is one of the two strings derived from the tenant, the issuer check passes and the
  result is that of the audience check; every other issuer, and an absent issuer claim,
  which reads as the empty string, fails with \<open>ErrInvalidIssuer\<close> and the issuer received.
\<close>

theorem validateToken_issuer:
  assumes "NewValidator env tenantID opts = Inr v"
    and "snd (parse tokenString (keyFunc v) [''RS256'']) = Inr token"
    and "Valid token"
  shows "(fst (GetIssuer (Claims token)) = ''https://sts.windows.net/'' @ tenantID @ ''/'' \<or>
      fst (GetIssuer (Claims token)) = ''https://login.microsoftonline.com/'' @ tenantID @ ''/v2.0'' \<longrightarrow>
        snd (validateToken parse v tokenString) \<in>
          {Inr (buildUserClaims v (Claims token)),
           Inl (Errorf ''%w. Received: %v'' ErrInvalidAudience
                (VStrings (fst (GetAudience (Claims token)))))}) \<and>
    (fst (GetIssuer (Claims token)) \<noteq> ''https://sts.windows.net/'' @ tenantID @ ''/'' \<and>
      fst (GetIssuer (Claims token)) \<noteq> ''https://login.microsoftonline.com/'' @ tenantID @ ''/v2.0'' \<longrightarrow>
        snd (validateToken parse v tokenString) =
          Inl (Errorf ''%w. Received: %s'' ErrInvalidIssuer
                (VString (fst (GetIssuer (Claims token)))))) \<and>
    (Claims token ''iss'' = None \<longrightarrow>
        snd (validateToken parse v tokenString) =
          Inl (Errorf ''%w. Received: %s'' ErrInvalidIssuer (VString [])))"
proof -
  have iss: "set (validIssuers v) =
    {''https://sts.windows.net/'' @ tenantID @ ''/'',
     ''https://login.microsoftonline.com/'' @ tenantID @ ''/v2.0''}"
    using NewValidator_Inr(2) [OF assms(1)] by simp
  have absent: "Claims token ''iss'' = None \<Longrightarrow> fst (GetIssuer (Claims token)) = []"
    by (simp add: GetIssuer_def parseString_def)
  show ?thesis
    unfolding validateToken_accepted [where parse = parse and tokenString = tokenString, OF assms(2,3)] iss
    using absent by auto
qed

theorem validateToken_issuer_witness:
  "snd (validateToken (ParseWithClaims bench_lib) contoso ''alice'') \<in>
     {Inr (buildUserClaims contoso claims_alice),
      Inl (Errorf ''%w. Received: %v'' ErrInvalidAudience (VStrings [''api://myapp'']))} \<and>
   snd (validateToken (ParseWithClaims bench_lib) contoso ''evil'') =
     Inl (Errorf ''%w. Received: %s'' ErrInvalidIssuer
           (VString ''https://evil.example/contoso/v2.0'')) \<and>
   snd (validateToken (ParseWithClaims bench_lib) contoso ''no-iss'') =
     Inl (Errorf ''%w. Received: %s'' ErrInvalidIssuer (VString []))"
proof -
  let ?alice = "bench_token ''alice'' ''RS256'' ''k2'' claims_alice\<lparr>Signature := ''key2'', Valid := True\<rparr>"
  let ?evil = "bench_token ''evil'' ''RS256'' ''k2'' claims_evil\<lparr>Signature := ''key2'', Valid := True\<rparr>"
  let ?noiss = "bench_token ''no-iss'' ''RS256'' ''k2'' claims_no_iss\<lparr>Signature := ''key2'', Valid := True\<rparr>"
  have p1: "snd (ParseWithClaims bench_lib ''alice'' (keyFunc contoso) [''RS256'']) = Inr ?alice"
    by (simp add: bench_defs)
  have p2: "snd (ParseWithClaims bench_lib ''evil'' (keyFunc contoso) [''RS256'']) = Inr ?evil"
    by (simp add: bench_defs)
  have p3: "snd (ParseWithClaims bench_lib ''no-iss'' (keyFunc contoso) [''RS256'']) = Inr ?noiss"
    by (simp add: bench_defs)
  have v: "Valid ?alice" "Valid ?evil" "Valid ?noiss"
    by simp_all
  have g: "fst (GetIssuer claims_alice) = ''https://login.microsoftonline.com/contoso/v2.0''"
    "fst (GetIssuer claims_evil) = ''https://evil.example/contoso/v2.0''"
    "claims_no_iss ''iss'' = None"
    "fst (GetAudience claims_alice) = [''api://myapp'']"
    by (simp_all add: bench_defs)
  have c: "Claims ?alice = claims_alice" "Claims ?evil = claims_evil" "Claims ?noiss = claims_no_iss"
    by (simp_all add: bench_token_def)
  show ?thesis
    using validateToken_issuer [where parse = "ParseWithClaims bench_lib"
          and tokenString = "''alice''", OF bench_NewValidator p1 v(1)]
      validateToken_issuer [where parse = "ParseWithClaims bench_lib"
          and tokenString = "''evil''", OF bench_NewValidator p2 v(2)]
      validateToken_issuer [where parse = "ParseWithClaims bench_lib"
          and tokenString = "''no-iss''", OF bench_NewValidator p3 v(3)]
    unfolding c by (simp add: g)
qed

text \<open>
  C4. For a token the parser accepted and whose issuer is accepted: with the audience check
  enabled, validation succeeds exactly when some audience of the token is among the
  accepted audiences, and otherwise fails with \<open>ErrInvalidAudience\<close> and the audiences
  received; with the audience check disabled, validation succeeds whatever the audience
  claim holds.
\<close>

theorem validateToken_audience:
  assumes "snd (parse tokenString (keyFunc v) [''RS256'']) = Inr token"
    and "Valid token"
    and "fst (GetIssuer (Claims token)) \<in> set (validIssuers v)"
  shows "(isAudienceCheckEnabled v \<longrightarrow>
      (snd (validateToken parse v tokenString) = Inr (buildUserClaims v (Claims token)) \<longleftrightarrow>
         set (fst (GetAudience (Claims token))) \<inter> set (validAudiences v) \<noteq> {}) \<and>
      (set (fst (GetAudience (Claims token))) \<inter> set (validAudiences v) = {} \<longrightarrow>
         snd (validateToken parse v tokenString) =
           Inl (Errorf ''%w. Received: %v'' ErrInvalidAudience
                 (VStrings (fst (GetAudience (Claims token))))))) \<and>
    (\<not> isAudienceCheckEnabled v \<longrightarrow>
      snd (validateToken parse v tokenString) = Inr (buildUserClaims v (Claims token)))"
  unfolding validateToken_accepted [where parse = parse and tokenString = tokenString, OF assms(1,2)] using assms(3) by auto

theorem validateToken_audience_witness:
  "snd (validateToken (ParseWithClaims bench_lib) contoso ''alice'') =
     Inr (buildUserClaims contoso claims_alice) \<and>
   snd (validateToken (ParseWithClaims bench_lib) contoso ''other-aud'') =
     Inl (Errorf ''%w. Received: %v'' ErrInvalidAudience (VStrings [''api://other''])) \<and>
   snd (validateToken (ParseWithClaims bench_lib) (contoso\<lparr>isAudienceCheckEnabled := False\<rparr>)
       ''other-aud'') =
     Inr (buildUserClaims (contoso\<lparr>isAudienceCheckEnabled := False\<rparr>) claims_other_aud)"
proof -
  let ?off = "contoso\<lparr>isAudienceCheckEnabled := False\<rparr>"
  let ?alice = "bench_token ''alice'' ''RS256'' ''k2'' claims_alice\<lparr>Signature := ''key2'', Valid := True\<rparr>"
  let ?other = "bench_token ''other-aud'' ''RS256'' ''k2'' claims_other_aud\<lparr>Signature := ''key2'', Valid := True\<rparr>"
  have p1: "snd (ParseWithClaims bench_lib ''alice'' (keyFunc contoso) [''RS256'']) = Inr ?alice"
    by (simp add: bench_defs)
  have p2: "snd (ParseWithClaims bench_lib ''other-aud'' (keyFunc contoso) [''RS256'']) = Inr ?other"
    by (simp add: bench_defs)
  have p3: "snd (ParseWithClaims bench_lib ''other-aud'' (keyFunc ?off) [''RS256'']) = Inr ?other"
    by (simp add: bench_defs)
  have v: "Valid ?alice" "Valid ?other"
    by simp_all
  have i1: "fst (GetIssuer (Claims ?alice)) \<in> set (validIssuers contoso)"
    by (simp add: bench_defs)
  have i2: "fst (GetIssuer (Claims ?other)) \<in> set (validIssuers contoso)"
    by (simp add: bench_defs)
  have i3: "fst (GetIssuer (Claims ?other)) \<in> set (validIssuers ?off)"
    by (simp add: bench_defs)
  have a1: "set (fst (GetAudience (Claims ?alice))) \<inter> set (validAudiences contoso) \<noteq> {}"
    by (simp add: bench_defs)
  have a2: "set (fst (GetAudience (Claims ?other))) \<inter> set (validAudiences contoso) = {}"
    "fst (GetAudience (Claims ?other)) = [''api://other'']"
    by (simp_all add: bench_defs)
  have e: "isAudienceCheckEnabled contoso" "\<not> isAudienceCheckEnabled ?off"
    by (simp_all add: contoso_def)
  have c: "Claims ?alice = claims_alice" "Claims ?other = claims_other_aud"
    by (simp_all add: bench_token_def)
  show ?thesis
    using validateToken_audience [where parse = "ParseWithClaims bench_lib"
          and tokenString = "''alice''", OF p1 v(1) i1]
      validateToken_audience [where parse = "ParseWithClaims bench_lib"
          and tokenString = "''other-aud''", OF p2 v(2) i2]
      validateToken_audience [where parse = "ParseWithClaims bench_lib"
          and tokenString = "''other-aud''", OF p3 v(2) i3]
      a1 a2 e
    unfolding c by simp
qed

section \<open>Normalised claims\<close>

lemma map_JString_inject: "map JString xs = map JString ys \<longleftrightarrow> xs = ys"
  by (rule inj_map_eq_map) (simp add: inj_def)

text \<open>
  C8. \<open>buildUserClaims\<close> has no error result and reads every claim with a guarded type
  test, so it yields claims for every raw claim mapping. The roles are the string elements
  of a \<open>roles\<close> claim that is a list, in their order, and none when the claim is absent or
  not a list; the name, preferred user, tenant and scopes are the values of \<open>name\<close>,
  \<open>preferred_username\<close>, \<open>tid\<close> and \<open>scp\<close> when these are strings, and the empty string
  otherwise.
\<close>

theorem buildUserClaims_fields:
  "(mapClaims ''roles'' = Some (JArray rolesInterfaces) \<longrightarrow>
      map JString (Roles (buildUserClaims v mapClaims)) =
        filter (\<lambda>roleInterface. case roleInterface of JString role \<Rightarrow> True | _ \<Rightarrow> False)
          rolesInterfaces) \<and>
   ((\<nexists>l. mapClaims ''roles'' = Some (JArray l)) \<longrightarrow> Roles (buildUserClaims v mapClaims) = []) \<and>
   Name (buildUserClaims v mapClaims) =
     (case mapClaims ''name'' of Some (JString s) \<Rightarrow> s | _ \<Rightarrow> []) \<and>
   PreferredUser (buildUserClaims v mapClaims) =
     (case mapClaims ''preferred_username'' of Some (JString s) \<Rightarrow> s | _ \<Rightarrow> []) \<and>
   TenantID (buildUserClaims v mapClaims) =
     (case mapClaims ''tid'' of Some (JString s) \<Rightarrow> s | _ \<Rightarrow> []) \<and>
   Scopes (buildUserClaims v mapClaims) =
     (case mapClaims ''scp'' of Some (JString s) \<Rightarrow> s | _ \<Rightarrow> []) \<and>
   RawClaims (buildUserClaims v mapClaims) = mapClaims"
proof -
  have strings: "map JString [role. JString role \<leftarrow> l] =
    filter (\<lambda>roleInterface. case roleInterface of JString role \<Rightarrow> True | _ \<Rightarrow> False) l" for l
  proof (induction l)
    case Nil
    show ?case by simp
  next
    case (Cons x l)
    then show ?case by (cases x) simp_all
  qed
  have roles: "mapClaims ''roles'' = Some (JArray rolesInterfaces) \<longrightarrow>
      map JString (Roles (buildUserClaims v mapClaims)) =
        filter (\<lambda>roleInterface. case roleInterface of JString role \<Rightarrow> True | _ \<Rightarrow> False)
          rolesInterfaces"
    by (simp add: buildUserClaims_def Let_def roles_loop_append strings)
  have none: "(\<nexists>l. mapClaims ''roles'' = Some (JArray l)) \<longrightarrow>
      Roles (buildUserClaims v mapClaims) = []"
    by (auto simp: buildUserClaims_def Let_def split: option.splits json.splits)
  show ?thesis
    using roles none by (simp add: buildUserClaims_def Let_def string_claim_def)
qed

theorem buildUserClaims_fields_witness:
  "Roles (buildUserClaims contoso claims_mixed_roles) = [''Admin'', ''Reader''] \<and>
   Roles (buildUserClaims contoso claims_no_iss) = [] \<and>
   Name (buildUserClaims contoso claims_mixed_roles) = [] \<and>
   TenantID (buildUserClaims contoso claims_mixed_roles) = [] \<and>
   Scopes (buildUserClaims contoso claims_mixed_roles) = ''user.read'' \<and>
   Name (buildUserClaims contoso claims_alice) = ''Alice''"
proof -
  have 1: "claims_mixed_roles ''roles'' =
    Some (JArray [JString ''Admin'', JNumber 42, JString ''Reader''])"
    by (simp add: claims_mixed_roles_def)
  have 2: "\<nexists>l. claims_no_iss ''roles'' = Some (JArray l)"
    by (simp add: claims_no_iss_def)
  have "map JString (Roles (buildUserClaims contoso claims_mixed_roles)) =
    map JString [''Admin'', ''Reader'']"
    using buildUserClaims_fields [of claims_mixed_roles _ contoso, THEN conjunct1, rule_format, OF 1]
    by simp
  then have r: "Roles (buildUserClaims contoso claims_mixed_roles) = [''Admin'', ''Reader'']"
    by (simp only: map_JString_inject)
  show ?thesis
    using r buildUserClaims_fields [of claims_no_iss _ contoso, THEN conjunct2, THEN conjunct1,
        rule_format, OF 2]
      buildUserClaims_fields [of claims_mixed_roles _ contoso]
      buildUserClaims_fields [of claims_alice _ contoso]
    by (simp add: claims_mixed_roles_def claims_alice_def)
qed

section \<open>The response of the middleware\<close>

lemma validateToken_error_kinds:
  assumes "snd (validateToken parse v tokenString) = Inl err"
  shows "errors_Is err ErrTokenParsingFailed \<or> err = ErrTokenInvalid \<or>
    errors_Is err ErrInvalidIssuer \<or> errors_Is err ErrInvalidAudience"
  using assms unfolding validateToken_def Let_def
  by (auto split: prod.splits sum.splits if_splits)

text \<open>
  C2. When extraction fails, the middleware answers 401 with the extraction error itself,
  which is \<open>ErrMissingAuthHeader\<close> or \<open>ErrInvalidAuthHeaderFormat\<close>, and logs nothing. When
  validation fails, whatever the error (parsing failed, token invalid, invalid issuer or
  invalid audience, and there is no other), it answers 401 with \<open>ErrTokenInvalid\<close>; the
  validation error goes to the log with the remote address.
\<close>

theorem Middleware_unauthorized:
  "(extractBearerToken r = Inl err \<longrightarrow>
      Middleware parse v r = ([], RespondError err 401 r) \<and>
      (err = ErrMissingAuthHeader \<or> err = ErrInvalidAuthHeaderFormat)) \<and>
   (extractBearerToken r = Inr tokenString \<and> snd (validateToken parse v tokenString) = Inl verr \<longrightarrow>
      Middleware parse v r =
        ([Warn ''Token validation failed'' verr (RemoteAddr r)], RespondError ErrTokenInvalid 401 r) \<and>
      (errors_Is verr ErrTokenParsingFailed \<or> verr = ErrTokenInvalid \<or>
       errors_Is verr ErrInvalidIssuer \<or> errors_Is verr ErrInvalidAudience))"
proof (intro conjI impI)
  assume e: "extractBearerToken r = Inl err"
  then show "Middleware parse v r = ([], RespondError err 401 r)"
    by (simp add: Middleware_def StatusUnauthorized_def)
  from e show "err = ErrMissingAuthHeader \<or> err = ErrInvalidAuthHeaderFormat"
    unfolding extractBearerToken_def Let_def by (auto split: if_splits)
next
  assume a: "extractBearerToken r = Inr tokenString \<and>
    snd (validateToken parse v tokenString) = Inl verr"
  then show "Middleware parse v r =
    ([Warn ''Token validation failed'' verr (RemoteAddr r)], RespondError ErrTokenInvalid 401 r)"
    by (simp add: Middleware_def StatusUnauthorized_def)
  from a show "errors_Is verr ErrTokenParsingFailed \<or> verr = ErrTokenInvalid \<or>
    errors_Is verr ErrInvalidIssuer \<or> errors_Is verr ErrInvalidAudience"
    using validateToken_error_kinds by blast
qed

theorem Middleware_unauthorized_witness:
  "Middleware (ParseWithClaims bench_lib) contoso (bench_request ''Basic alice'') =
     ([], RespondError ErrInvalidAuthHeaderFormat 401 (bench_request ''Basic alice'')) \<and>
   Middleware (ParseWithClaims bench_lib) contoso (bench_request []) =
     ([], RespondError ErrMissingAuthHeader 401 (bench_request [])) \<and>
   Middleware (ParseWithClaims bench_lib) contoso (bench_request ''Bearer forged'') =
     ([Warn ''Token validation failed''
         (Errorf ''%w: %v'' ErrTokenParsingFailed (VError SignatureInvalid)) ''10.0.0.7:4711''],
      RespondError ErrTokenInvalid 401 (bench_request ''Bearer forged'')) \<and>
   snd (Middleware unflagged_parser contoso (bench_request ''Bearer alice'')) =
     RespondError ErrTokenInvalid 401 (bench_request ''Bearer alice'') \<and>
   snd (Middleware (ParseWithClaims bench_lib) contoso (bench_request ''Bearer evil'')) =
     RespondError ErrTokenInvalid 401 (bench_request ''Bearer evil'') \<and>
   snd (Middleware (ParseWithClaims bench_lib) contoso (bench_request ''Bearer other-aud'')) =
     RespondError ErrTokenInvalid 401 (bench_request ''Bearer other-aud'')"
proof -
  have 1: "extractBearerToken (bench_request ''Basic alice'') = Inl ErrInvalidAuthHeaderFormat"
    by (simp add: extractBearerToken_def Header_Get_def bench_request_def EqualFold_def
        lower_def char_of_def bit_Suc_0_iff)
  have 2: "extractBearerToken (bench_request []) = Inl ErrMissingAuthHeader"
    by (simp add: extractBearerToken_def Header_Get_def bench_request_def)
  have 3: "extractBearerToken (bench_request ''Bearer forged'') = Inr ''forged'' \<and>
    snd (validateToken (ParseWithClaims bench_lib) contoso ''forged'') =
      Inl (Errorf ''%w: %v'' ErrTokenParsingFailed (VError SignatureInvalid))"
    using bench_extract [of "CHR ''f''" "''orged''"] by (simp add: bench_forged)
  have 4: "extractBearerToken (bench_request ''Bearer alice'') = Inr ''alice'' \<and>
    snd (validateToken unflagged_parser contoso ''alice'') = Inl ErrTokenInvalid"
    using bench_extract [of "CHR ''a''" "''lice''"] by (simp add: bench_unflagged)
  have 5: "extractBearerToken (bench_request ''Bearer evil'') = Inr ''evil'' \<and>
    snd (validateToken (ParseWithClaims bench_lib) contoso ''evil'') =
      Inl (Errorf ''%w. Received: %s'' ErrInvalidIssuer (VString ''https://evil.example/contoso/v2.0''))"
    using bench_extract [of "CHR ''e''" "''vil''"] by (simp add: bench_evil)
  have 6: "extractBearerToken (bench_request ''Bearer other-aud'') = Inr ''other-aud'' \<and>
    snd (validateToken (ParseWithClaims bench_lib) contoso ''other-aud'') =
      Inl (Errorf ''%w. Received: %v'' ErrInvalidAudience (VStrings [''api://other'']))"
    using bench_extract [of "CHR ''o''" "''ther-aud''"] by (simp add: bench_other_aud)
  have r: "RemoteAddr (bench_request ''Bearer forged'') = ''10.0.0.7:4711''"
    by (simp add: bench_request_def)
  show ?thesis
    using Middleware_unauthorized [where r = "bench_request ''Basic alice''"
        and parse = "ParseWithClaims bench_lib" and v = contoso, THEN conjunct1, rule_format, OF 1]
      Middleware_unauthorized [where r = "bench_request []"
        and parse = "ParseWithClaims bench_lib" and v = contoso, THEN conjunct1, rule_format, OF 2]
      Middleware_unauthorized [where parse = "ParseWithClaims bench_lib" and v = contoso,
        THEN conjunct2, rule_format, OF 3]
      Middleware_unauthorized [where parse = unflagged_parser and v = contoso,
        THEN conjunct2, rule_format, OF 4]
      Middleware_unauthorized [where parse = "ParseWithClaims bench_lib" and v = contoso,
        THEN conjunct2, rule_format, OF 5]
      Middleware_unauthorized [where parse = "ParseWithClaims bench_lib" and v = contoso,
        THEN conjunct2, rule_format, OF 6]
    by (simp add: r)
qed

end
